theory Spec2Isabelle
  imports Complex_Main "HOL-Library.Sublist" "HOL-Library.Char_ord" "HOL-Library.List_Lexorder"
begin

section \<open>Cells, frames and errors\<close>

text \<open>
  The program (\<^verbatim>\<open>lop3.py\<close>) reads two spreadsheet sheets into pandas data frames, merges
  them, filters the merged frame by five multi-select widgets and computes aggregates.
  A data frame is modelled as pandas lays it out: a list of column labels and a list of
  rows, each row holding one cell per column label, by position. Column labels may repeat
  (\<^verbatim>\<open>rename\<close> can produce two \<^verbatim>\<open>Category\<close> columns).

  A cell is what \<^verbatim>\<open>read_excel\<close> delivers: a blank (\<^verbatim>\<open>NaN\<close>), a text, an integer or a
  float. Floats are idealised as rationals: rounding is not modelled, and the text Python
  prints for a float is a parameter \<open>float_str\<close> of the functions that render cells.
\<close>

datatype cell = NaN | PyStr string | PyInt int | PyFloat rat

datatype error = KeyError | InvalidIndexError | TypeError | ValueError

record frame =
  columns :: "string list"
  rows :: "cell list list"

text \<open>
  A sheet as \<^verbatim>\<open>read_excel\<close> returns it: rectangular, and with pairwise different column
  labels (pandas renames a repeated header to \<^verbatim>\<open>State.1\<close>).
\<close>

definition rectangular :: "frame \<Rightarrow> bool" where
  "rectangular df = list_all (\<lambda>r. length r = length (columns df)) (rows df)"

definition sheet_ok :: "frame \<Rightarrow> bool" where
  "sheet_ok df = (distinct (columns df) \<and> rectangular df)"

text \<open>The cells a row holds under a column label (all of them when the label repeats).\<close>

definition cells_of :: "string list \<Rightarrow> cell list \<Rightarrow> string \<Rightarrow> cell list" where
  "cells_of cols r c = map snd (filter (\<lambda>p. fst p = c) (zip cols r))"

text \<open>The cell of a row under a label that occurs once (the first one otherwise).\<close>

definition cell_of :: "string list \<Rightarrow> cell list \<Rightarrow> string \<Rightarrow> cell" where
  "cell_of cols r c = (case cells_of cols r c of [] \<Rightarrow> NaN | x # _ \<Rightarrow> x)"

section \<open>Text of a cell\<close>

text \<open>Python's \<^verbatim>\<open>str\<close> of a non-negative integer, and of an integer.\<close>

fun str_nat :: "nat \<Rightarrow> string" where
  "str_nat n = (if n < 10 then [char_of (48 + n)]
                else str_nat (n div 10) @ [char_of (48 + n mod 10)])"

declare str_nat.simps [simp del]

definition str_int :: "int \<Rightarrow> string" where
  "str_int i = (if i < 0 then CHR ''-'' # str_nat (nat (- i)) else str_nat (nat i))"

text \<open>
  \<^verbatim>\<open>Series.astype(str)\<close>, cell by cell, on the object and numeric columns that
  \<^verbatim>\<open>read_excel\<close> returns: a blank becomes the text \<^verbatim>\<open>nan\<close>, a text stays, a number is
  printed.
\<close>

definition astype_str :: "(rat \<Rightarrow> string) \<Rightarrow> cell \<Rightarrow> string" where
  "astype_str float_str x =
     (case x of NaN \<Rightarrow> ''nan'' | PyStr s \<Rightarrow> s | PyInt i \<Rightarrow> str_int i
      | PyFloat q \<Rightarrow> float_str q)"

text \<open>
  \<^verbatim>\<open>str.strip()\<close>: leading and trailing whitespace is removed. Strings are byte strings
  here, and the whitespace is the ASCII one (space, tab, line feed, vertical tab, form feed,
  carriage return and the four separators \<^verbatim>\<open>0x1C\<close> to \<^verbatim>\<open>0x1F\<close>).
\<close>

definition isspace :: "char \<Rightarrow> bool" where
  "isspace ch = (ch \<in> set [CHR 0x20, CHR 0x09, CHR 0x0A, CHR 0x0B, CHR 0x0C, CHR 0x0D,
                             CHR 0x1C, CHR 0x1D, CHR 0x1E, CHR 0x1F])"

definition strip :: "string \<Rightarrow> string" where
  "strip s = rev (dropWhile isspace (rev (dropWhile isspace s)))"

text \<open>
  \<^verbatim>\<open>str.replace(r'\.0$', '', regex=True)\<close>: Python's \<^verbatim>\<open>$\<close> matches at the end of the
  string and also just before a newline that ends the string, so the pattern has at most
  one match: a final \<^verbatim>\<open>.0\<close>, or a \<^verbatim>\<open>.0\<close> in front of a final newline.
\<close>

definition re_sub_dot0 :: "string \<Rightarrow> string" where
  "re_sub_dot0 s =
     (if suffix ''.0'' s then take (length s - 2) s
      else if suffix ''.0\<newline>'' s then take (length s - 3) s @ ''\<newline>''
      else s)"

text \<open>The two normalisations of the merge, on one cell.\<close>

definition clean_text :: "(rat \<Rightarrow> string) \<Rightarrow> cell \<Rightarrow> cell" where
  "clean_text float_str x = PyStr (strip (astype_str float_str x))"

definition normalize_grade :: "(rat \<Rightarrow> string) \<Rightarrow> cell \<Rightarrow> cell" where
  "normalize_grade float_str x = PyStr (re_sub_dot0 (astype_str float_str x))"

section \<open>Frame operations used by the merge\<close>

text \<open>\<^verbatim>\<open>df.rename(columns={old: new})\<close>: labels only; an existing \<open>new\<close> column stays.\<close>

definition rename :: "string \<Rightarrow> string \<Rightarrow> frame \<Rightarrow> frame" where
  "rename old new df = df\<lparr>columns := map (\<lambda>c. if c = old then new else c) (columns df)\<rparr>"

text \<open>
  \<^verbatim>\<open>df[c] = v\<close> for a scalar \<open>v\<close>: an existing column is overwritten in place, a new
  one is appended as the last column.
\<close>

definition setitem_scalar :: "string \<Rightarrow> cell \<Rightarrow> frame \<Rightarrow> frame" where
  "setitem_scalar c v df =
     (if c \<in> set (columns df)
      then df\<lparr>rows := map (\<lambda>r. map (\<lambda>p. if fst p = c then v else snd p) (zip (columns df) r))
                          (rows df)\<rparr>
      else df\<lparr>columns := columns df @ [c], rows := map (\<lambda>r. r @ [v]) (rows df)\<rparr>)"

text \<open>
  \<^verbatim>\<open>df[cs]\<close> for a list of labels: \<^verbatim>\<open>KeyError\<close> when a label is absent; otherwise the
  columns in the order of \<open>cs\<close>, every column that carries a requested label.
\<close>

definition getitem_cols :: "string list \<Rightarrow> frame \<Rightarrow> error + frame" where
  "getitem_cols cs df =
     (if set cs \<subseteq> set (columns df)
      then Inr \<lparr>columns = concat (map (\<lambda>c. filter (\<lambda>n. n = c) (columns df)) cs),
               rows = map (\<lambda>r. concat (map (cells_of (columns df) r) cs)) (rows df)\<rparr>
      else Inl KeyError)"

text \<open>
  \<^verbatim>\<open>pd.concat([a, b], ignore_index=True)\<close>. Equal column lists: the rows of \<open>b\<close> follow
  those of \<open>a\<close>. Different lists: pandas reindexes both frames to the union of the labels
  (first occurrence first, missing cells blank), which it refuses with
  \<^verbatim>\<open>InvalidIndexError\<close> when a frame has a repeated label.
\<close>

definition union_labels :: "string list \<Rightarrow> string list \<Rightarrow> string list" where
  "union_labels xs ys = rev (remdups (rev (xs @ ys)))"

definition reindex :: "string list \<Rightarrow> frame \<Rightarrow> cell list list" where
  "reindex new df = map (\<lambda>r. map (cell_of (columns df) r) new) (rows df)"

definition concat_frames :: "frame \<Rightarrow> frame \<Rightarrow> error + frame" where
  "concat_frames a b =
     (if columns a = columns b
      then Inr \<lparr>columns = columns a, rows = rows a @ rows b\<rparr>
      else if distinct (columns a) \<and> distinct (columns b)
      then Inr \<lparr>columns = union_labels (columns a) (columns b),
                rows = reindex (union_labels (columns a) (columns b)) a
                     @ reindex (union_labels (columns a) (columns b)) b\<rparr>
      else Inl InvalidIndexError)"

text \<open>
  \<^verbatim>\<open>df[c] = df[c].<elementwise f>\<close>: \<^verbatim>\<open>KeyError\<close> when the column is absent.
\<close>

definition map_column :: "string \<Rightarrow> (cell \<Rightarrow> cell) \<Rightarrow> frame \<Rightarrow> error + frame" where
  "map_column c f df =
     (if c \<in> set (columns df)
      then Inr (df\<lparr>rows := map (\<lambda>r. map (\<lambda>p. if fst p = c then f (snd p) else snd p)
                                        (zip (columns df) r)) (rows df)\<rparr>)
      else Inl KeyError)"

section \<open>The merge: \<^verbatim>\<open>load_and_prep_data\<close>\<close>

definition common_cols :: "string list" where
  "common_cols = [''State'', ''Centre Name'', ''Donor'', ''Subject'', ''Grade'',
                  ''Total Marks'', ''Obtained Marks'', ''Category'', ''Academic Year'']"

definition text_cols :: "string list" where
  "text_cols = [''State'', ''Centre Name'', ''Donor'', ''Subject'']"

text \<open>Lines 24-27: a sheet that has a \<^verbatim>\<open>Rubrics\<close> column gets it renamed.\<close>

definition standardize :: "frame \<Rightarrow> frame" where
  "standardize df =
     (if ''Rubrics'' \<in> set (columns df) then rename ''Rubrics'' ''Category'' df else df)"

text \<open>Lines 41-42: the loop over the four text columns.\<close>

fun clean_columns :: "(rat \<Rightarrow> string) \<Rightarrow> string list \<Rightarrow> frame \<Rightarrow> error + frame" where
  "clean_columns float_str [] df = Inr df"
| "clean_columns float_str (c # cs) df =
     (case map_column c (clean_text float_str) df of
        Inl e \<Rightarrow> Inl e
      | Inr df' \<Rightarrow> clean_columns float_str cs df')"

text \<open>
  Lines 18-47, after the two \<^verbatim>\<open>read_excel\<close> calls (whose results are the arguments
  \<open>sheet1\<close> and \<open>sheet2\<close>).
\<close>

definition load_and_prep_data :: "(rat \<Rightarrow> string) \<Rightarrow> frame \<Rightarrow> frame \<Rightarrow> error + frame" where
  "load_and_prep_data float_str sheet1 sheet2 =
     (let df_24_25 = setitem_scalar ''Academic Year'' (PyStr ''AY 24-25'') (standardize sheet1);
          df_25_26 = setitem_scalar ''Academic Year'' (PyStr ''AY 25-26'') (standardize sheet2)
      in case getitem_cols common_cols df_24_25 of
           Inl e \<Rightarrow> Inl e
         | Inr a \<Rightarrow>
        (case getitem_cols common_cols df_25_26 of
           Inl e \<Rightarrow> Inl e
         | Inr b \<Rightarrow>
        (case concat_frames a b of
           Inl e \<Rightarrow> Inl e
         | Inr df_combined \<Rightarrow>
        (case clean_columns float_str text_cols df_combined of
           Inl e \<Rightarrow> Inl e
         | Inr df_clean \<Rightarrow> map_column ''Grade'' (normalize_grade float_str) df_clean))))"

section \<open>The filters (lines 76-91)\<close>

text \<open>What the five multi-select widgets return: for each column the selected options.\<close>

record criteria =
  selected_states :: "string list"
  selected_centres :: "string list"
  selected_donors :: "string list"
  selected_subjects :: "string list"
  selected_grades :: "string list"

text \<open>\<^verbatim>\<open>Series.isin(sel)\<close> on one cell: the cell is one of the selected texts.\<close>

definition isin :: "cell \<Rightarrow> string list \<Rightarrow> bool" where
  "isin x sel = (x \<in> set (map PyStr sel))"

text \<open>\<^verbatim>\<open>df[df[c].isin(sel)]\<close>: the rows whose cell under \<open>c\<close> is selected, in their order.\<close>

definition filter_isin :: "string \<Rightarrow> string list \<Rightarrow> frame \<Rightarrow> error + frame" where
  "filter_isin c sel df =
     (if c \<in> set (columns df)
      then Inr (df\<lparr>rows := filter (\<lambda>r. isin (cell_of (columns df) r c) sel) (rows df)\<rparr>)
      else Inl KeyError)"

text \<open>One \<^verbatim>\<open>if "All" not in selected: ...\<close> statement.\<close>

definition filter_step :: "string \<Rightarrow> string list \<Rightarrow> frame \<Rightarrow> error + frame" where
  "filter_step c sel df = (if ''All'' \<notin> set sel then filter_isin c sel df else Inr df)"

definition apply_filters :: "frame \<Rightarrow> criteria \<Rightarrow> error + frame" where
  "apply_filters df cr =
     (case filter_step ''State'' (selected_states cr) df of
        Inl e \<Rightarrow> Inl e
      | Inr d1 \<Rightarrow>
     (case filter_step ''Centre Name'' (selected_centres cr) d1 of
        Inl e \<Rightarrow> Inl e
      | Inr d2 \<Rightarrow>
     (case filter_step ''Donor'' (selected_donors cr) d2 of
        Inl e \<Rightarrow> Inl e
      | Inr d3 \<Rightarrow>
     (case filter_step ''Subject'' (selected_subjects cr) d3 of
        Inl e \<Rightarrow> Inl e
      | Inr d4 \<Rightarrow> filter_step ''Grade'' (selected_grades cr) d4))))"

text \<open>The widgets' default: every filter set to \<^verbatim>\<open>["All"]\<close>.\<close>

definition all_criteria :: criteria where
  "all_criteria = \<lparr>selected_states = [''All''], selected_centres = [''All''],
     selected_donors = [''All''], selected_subjects = [''All''],
     selected_grades = [''All'']\<rparr>"

definition filter_cols :: "string list" where
  "filter_cols = [''State'', ''Centre Name'', ''Donor'', ''Subject'', ''Grade'']"

section \<open>The option lists of the widgets (lines 62-66)\<close>

text \<open>\<^verbatim>\<open>df[c]\<close> for one label: the column as a list of cells.\<close>

definition getitem :: "string \<Rightarrow> frame \<Rightarrow> error + cell list" where
  "getitem c df =
     (if c \<in> set (columns df) then Inr (map (\<lambda>r. cell_of (columns df) r c) (rows df))
      else Inl KeyError)"



fun is_text :: "cell \<Rightarrow> bool" where
  "is_text (PyStr s) = True"
| "is_text x = False"


fun number_of :: "cell \<Rightarrow> rat option" where
  "number_of (PyInt i) = Some (of_int i)"
| "number_of (PyFloat q) = Some q"
| "number_of x = None"



section \<open>The aggregates (lines 93-146)\<close>

text \<open>
  \<^verbatim>\<open>Series.mean()\<close>: blanks are skipped; the mean of no number is \<^verbatim>\<open>NaN\<close> (here \<open>None\<close>);
  a text among the cells makes pandas raise \<^verbatim>\<open>TypeError\<close>. Means are exact rationals.
\<close>

definition series_mean :: "cell list \<Rightarrow> error + rat option" where
  "series_mean xs =
     (if list_ex is_text xs then Inl TypeError
      else (let vs = List.map_filter number_of xs
            in if vs = [] then Inr None else Inr (Some (sum_list vs / of_nat (length vs)))))"

text \<open>\<^verbatim>\<open>df[df['Academic Year'] == y]\<close>.\<close>

definition year_rows :: "string \<Rightarrow> frame \<Rightarrow> error + frame" where
  "year_rows y df =
     (if ''Academic Year'' \<in> set (columns df)
      then Inr (df\<lparr>rows := filter (\<lambda>r. cell_of (columns df) r ''Academic Year'' = PyStr y)
                               (rows df)\<rparr>)
      else Inl KeyError)"

text \<open>\<^verbatim>\<open>df[df['Academic Year'] == y]['Obtained Marks'].mean()\<close>.\<close>

definition year_mean :: "string \<Rightarrow> frame \<Rightarrow> error + rat option" where
  "year_mean y df =
     (case year_rows y df of
        Inl e \<Rightarrow> Inl e
      | Inr g \<Rightarrow>
     (case getitem ''Obtained Marks'' g of
        Inl e \<Rightarrow> Inl e
      | Inr ms \<Rightarrow> series_mean ms))"

text \<open>
  The quick metrics. A mean that is \<^verbatim>\<open>NaN\<close> is shown as \<^verbatim>\<open>N/A\<close>; the delta is passed
  to the widget only when \<^verbatim>\<open>pd.notna\<close> holds of both means, and is \<^verbatim>\<open>None\<close> otherwise.
  The values are kept before their formatting to two decimals.
\<close>

record kpis =
  total_students :: nat
  avg_marks_24 :: "rat option"
  avg_marks_25 :: "rat option"
  delta :: "rat option"

definition compute_kpis :: "frame \<Rightarrow> error + kpis" where
  "compute_kpis df =
     (case year_mean ''AY 24-25'' df of
        Inl e \<Rightarrow> Inl e
      | Inr a24 \<Rightarrow>
     (case year_mean ''AY 25-26'' df of
        Inl e \<Rightarrow> Inl e
      | Inr a25 \<Rightarrow>
          Inr \<lparr>total_students = length (rows df), avg_marks_24 = a24, avg_marks_25 = a25,
               delta = (case a24 of None \<Rightarrow> None
                        | Some m24 \<Rightarrow> (case a25 of None \<Rightarrow> None
                                       | Some m25 \<Rightarrow> Some (m25 - m24)))\<rparr>))"

text \<open>
  \<^verbatim>\<open>df.groupby([k1, k2])\<close>: the rows with a blank key are left out; a group is a pair of
  key values that occurs. pandas orders the groups by key; here they stand in the order of
  their first occurrence.
\<close>

definition group_key :: "string \<Rightarrow> string \<Rightarrow> string list \<Rightarrow> cell list \<Rightarrow> cell \<times> cell" where
  "group_key k1 k2 cols r = (cell_of cols r k1, cell_of cols r k2)"

definition keyed_rows :: "string \<Rightarrow> string \<Rightarrow> frame \<Rightarrow> cell list list" where
  "keyed_rows k1 k2 df =
     filter (\<lambda>r. cell_of (columns df) r k1 \<noteq> NaN \<and> cell_of (columns df) r k2 \<noteq> NaN) (rows df)"

definition group_keys :: "string \<Rightarrow> string \<Rightarrow> frame \<Rightarrow> (cell \<times> cell) list" where
  "group_keys k1 k2 df = rev (remdups (rev (map (group_key k1 k2 (columns df)) (keyed_rows k1 k2 df))))"

definition group_rows :: "string \<Rightarrow> string \<Rightarrow> frame \<Rightarrow> cell \<times> cell \<Rightarrow> cell list list" where
  "group_rows k1 k2 df k = filter (\<lambda>r. group_key k1 k2 (columns df) r = k) (keyed_rows k1 k2 df)"

text \<open>The first error of a list of results, or all the values.\<close>

fun collect :: "(error + 'a) list \<Rightarrow> error + 'a list" where
  "collect [] = Inr []"
| "collect (Inl e # xs) = Inl e"
| "collect (Inr v # xs) = (case collect xs of Inl e \<Rightarrow> Inl e | Inr vs \<Rightarrow> Inr (v # vs))"

text \<open>\<^verbatim>\<open>df.groupby([k1, k2])['Obtained Marks'].mean().reset_index()\<close>.\<close>

definition groupby_mean :: "string \<Rightarrow> string \<Rightarrow> frame \<Rightarrow> error + (cell \<times> cell \<times> rat option) list" where
  "groupby_mean k1 k2 df =
     (if k1 \<in> set (columns df) \<and> k2 \<in> set (columns df) \<and> ''Obtained Marks'' \<in> set (columns df)
      then collect (map (\<lambda>k. case series_mean (map (\<lambda>r. cell_of (columns df) r ''Obtained Marks'')
                                                  (group_rows k1 k2 df k)) of
                               Inl e \<Rightarrow> Inl e
                             | Inr m \<Rightarrow> Inr (fst k, snd k, m))
                        (group_keys k1 k2 df))
      else Inl KeyError)"

text \<open>
  \<^verbatim>\<open>df.groupby(['Academic Year', 'Category']).size().reset_index(name='Count')\<close>. A frame
  with two \<^verbatim>\<open>Category\<close> columns has no one-dimensional grouper: \<^verbatim>\<open>ValueError\<close>.
\<close>

definition cat_counts :: "frame \<Rightarrow> error + (cell \<times> cell \<times> nat) list" where
  "cat_counts df =
     (if ''Academic Year'' \<in> set (columns df) \<and> ''Category'' \<in> set (columns df)
      then (if 1 < length (filter (\<lambda>n. n = ''Category'') (columns df)) then Inl ValueError
            else Inr (map (\<lambda>k. (fst k, snd k,
                                 length (group_rows ''Academic Year'' ''Category'' df k)))
                          (group_keys ''Academic Year'' ''Category'' df)))
      else Inl KeyError)"

text \<open>
  \<^verbatim>\<open>cat_counts.groupby('Academic Year')['Count'].transform(lambda x: x / x.sum() * 100)\<close>:
  every count divided by the sum of the counts of its year, times 100.
\<close>

definition year_total :: "(cell \<times> cell \<times> nat) list \<Rightarrow> cell \<Rightarrow> nat" where
  "year_total t y = sum_list (map (\<lambda>g. snd (snd g)) (filter (\<lambda>g. fst g = y) t))"

definition percentage :: "(cell \<times> cell \<times> nat) list \<Rightarrow> cell \<times> cell \<times> nat \<Rightarrow> rat" where
  "percentage t g = of_nat (snd (snd g)) / of_nat (year_total t (fst g)) * 100"

definition cat_percentages :: "frame \<Rightarrow> error + (cell \<times> cell \<times> nat \<times> rat) list" where
  "cat_percentages df =
     (case cat_counts df of
        Inl e \<Rightarrow> Inl e
      | Inr t \<Rightarrow> Inr (map (\<lambda>g. (fst g, fst (snd g), snd (snd g), percentage t g)) t))"


text \<open>
  What one pass of the script shows once the merged table is there (lines 76-150): the
  warning of line 94, or the metrics, the three chart tables and the filtered rows. (Inside the \<^verbatim>\<open>else\<close> branch the three
  \<^verbatim>\<open>if not filtered_df.empty\<close> tests hold.) An exception ends the pass in the error box
  of line 153: the \<open>Inl\<close> results.
\<close>

datatype view =
  Warning string
| Dashboard kpis "(cell \<times> cell \<times> rat option) list" "(cell \<times> cell \<times> nat \<times> rat) list"
    "(cell \<times> cell \<times> rat option) list" frame

text \<open>\<^verbatim>\<open>DataFrame.empty\<close>: no rows or no columns.\<close>

definition empty_frame :: "frame \<Rightarrow> bool" where
  "empty_frame df = (rows df = [] \<or> columns df = [])"

definition summarize :: "frame \<Rightarrow> error + view" where
  "summarize df =
     (case compute_kpis df of
        Inl e \<Rightarrow> Inl e
      | Inr k \<Rightarrow>
     (case groupby_mean ''Subject'' ''Academic Year'' df of
        Inl e \<Rightarrow> Inl e
      | Inr avg_subj \<Rightarrow>
     (case cat_percentages df of
        Inl e \<Rightarrow> Inl e
      | Inr cat \<Rightarrow>
     (case groupby_mean ''State'' ''Academic Year'' df of
        Inl e \<Rightarrow> Inl e
      | Inr avg_state \<Rightarrow> Inr (Dashboard k avg_subj cat avg_state df)))))"

definition no_data_message :: string where
  "no_data_message = ''No data available for the selected filters. Please adjust your selection.''"

definition render :: "frame \<Rightarrow> criteria \<Rightarrow> error + view" where
  "render df cr =
     (case apply_filters df cr of
        Inl e \<Rightarrow> Inl e
      | Inr filtered_df \<Rightarrow>
          if empty_frame filtered_df then Inr (Warning no_data_message)
          else summarize filtered_df)"

section \<open>Vocabulary of the statements\<close>

text \<open>
  The eight columns a sheet must bring (the ninth common column is the tag the merge
  adds), a valid source (it has them once \<^verbatim>\<open>Rubrics\<close> is renamed), and a sheet that
  carries a \<^verbatim>\<open>Category\<close> column next to its \<^verbatim>\<open>Rubrics\<close> column.
\<close>

definition required_cols :: "string list" where
  "required_cols = [''State'', ''Centre Name'', ''Donor'', ''Subject'', ''Grade'',
                    ''Total Marks'', ''Obtained Marks'', ''Category'']"

definition valid_source :: "frame \<Rightarrow> bool" where
  "valid_source s = (set required_cols \<subseteq> set (columns (standardize s)))"

definition has_both :: "frame \<Rightarrow> bool" where
  "has_both s = (''Rubrics'' \<in> set (columns s) \<and> ''Category'' \<in> set (columns s))"

text \<open>Lines 24-31 on one sheet: the reconciled sheet with its year tag.\<close>

definition tagged :: "string \<Rightarrow> frame \<Rightarrow> frame" where
  "tagged y s = setitem_scalar ''Academic Year'' (PyStr y) (standardize s)"

text \<open>The cells of every row under a label; the first of a row's cells; label counts.\<close>

definition col_cells :: "string \<Rightarrow> frame \<Rightarrow> cell list list" where
  "col_cells c df = map (\<lambda>r. cells_of (columns df) r c) (rows df)"

definition first_cell :: "cell list \<Rightarrow> cell" where
  "first_cell cs = (case cs of [] \<Rightarrow> NaN | x # _ \<Rightarrow> x)"

definition occurrences :: "string \<Rightarrow> string list \<Rightarrow> nat" where
  "occurrences c xs = length (filter (\<lambda>n. n = c) xs)"

text \<open>What the merge does to the cells of a common column (lines 41-45).\<close>

definition normalizer :: "(rat \<Rightarrow> string) \<Rightarrow> string \<Rightarrow> cell \<Rightarrow> cell" where
  "normalizer fs c = (if c \<in> set text_cols then clean_text fs
                      else if c = ''Grade'' then normalize_grade fs else (\<lambda>x. x))"

text \<open>
  The conjunction of the five column tests: a column whose selection contains \<^verbatim>\<open>All\<close>
  tests nothing.
\<close>

definition passes :: "string list \<Rightarrow> criteria \<Rightarrow> cell list \<Rightarrow> bool" where
  "passes cols cr r =
     ((''All'' \<in> set (selected_states cr) \<or> isin (cell_of cols r ''State'') (selected_states cr))
    \<and> (''All'' \<in> set (selected_centres cr) \<or> isin (cell_of cols r ''Centre Name'') (selected_centres cr))
    \<and> (''All'' \<in> set (selected_donors cr) \<or> isin (cell_of cols r ''Donor'') (selected_donors cr))
    \<and> (''All'' \<in> set (selected_subjects cr) \<or> isin (cell_of cols r ''Subject'') (selected_subjects cr))
    \<and> (''All'' \<in> set (selected_grades cr) \<or> isin (cell_of cols r ''Grade'') (selected_grades cr)))"

text \<open>The cells of a column, one per row (the value of \<^verbatim>\<open>df[c]\<close> when \<open>c\<close> is a column).\<close>

definition column_of :: "string \<Rightarrow> frame \<Rightarrow> cell list" where
  "column_of c df = map (\<lambda>r. cell_of (columns df) r c) (rows df)"

text \<open>
  The rows of a year, their marks that are numbers (blanks left out), the arithmetic
  mean, and a table whose \<^verbatim>\<open>Obtained Marks\<close> column holds numbers and blanks only.
\<close>

definition year_group :: "string \<Rightarrow> frame \<Rightarrow> cell list list" where
  "year_group y df = filter (\<lambda>r. cell_of (columns df) r ''Academic Year'' = PyStr y) (rows df)"

definition year_marks :: "string \<Rightarrow> frame \<Rightarrow> rat list" where
  "year_marks y df =
     List.map_filter number_of (map (\<lambda>r. cell_of (columns df) r ''Obtained Marks'') (year_group y df))"

definition mean :: "rat list \<Rightarrow> rat" where
  "mean xs = sum_list xs / of_nat (length xs)"

definition numeric_marks :: "frame \<Rightarrow> bool" where
  "numeric_marks df = (\<not> list_ex is_text (column_of ''Obtained Marks'' df))"

section \<open>Example sheets\<close>

text \<open>
  Python's text of a float whose value is a whole number (below \<open>10^16\<close>): \<^verbatim>\<open>3.0\<close>.
  It stands for \<open>float_str\<close> in the examples, whose floats are whole numbers.
\<close>

definition float_str_whole :: "rat \<Rightarrow> string" where
  "float_str_whole q = str_int \<lfloor>q\<rfloor> @ ''.0''"

text \<open>
  A sheet of the first year (with \<^verbatim>\<open>Rubrics\<close>, an extra column, a blank donor, padded
  text and float grades), a sheet of the second year, and a sheet that has both a
  \<^verbatim>\<open>Rubrics\<close> and a \<^verbatim>\<open>Category\<close> column.
\<close>

definition demo_sheet_24 :: frame where
  "demo_sheet_24 = \<lparr>columns = [''State'', ''Centre Name'', ''Donor'', ''Subject'', ''Grade'',
        ''Total Marks'', ''Obtained Marks'', ''Rubrics'', ''Remarks''],
     rows = [[PyStr '' Goa '', PyStr ''C1'', NaN, PyStr ''Math'', PyFloat 3, PyInt 100,
              PyFloat 50, PyStr ''Beginner'', PyStr ''ok''],
             [PyStr ''Goa'', PyStr ''C1'', PyStr ''D1'', PyStr ''Eng'', PyFloat 3, PyInt 100,
              PyFloat 60, PyStr ''Advanced'', NaN]]\<rparr>"

definition demo_sheet_25 :: frame where
  "demo_sheet_25 = \<lparr>columns = [''State'', ''Centre Name'', ''Donor'', ''Subject'', ''Grade'',
        ''Total Marks'', ''Obtained Marks'', ''Category''],
     rows = [[PyStr ''Goa'', PyStr ''C2'', PyStr ''D1'', PyStr ''Math'', PyInt 3, PyInt 100,
              PyFloat 70, PyStr ''Beginner'']]\<rparr>"

definition demo_sheet_both :: frame where
  "demo_sheet_both = \<lparr>columns = [''State'', ''Centre Name'', ''Donor'', ''Subject'', ''Grade'',
        ''Total Marks'', ''Obtained Marks'', ''Rubrics'', ''Category''],
     rows = [[PyStr ''Goa'', PyStr ''C1'', PyStr ''D1'', PyStr ''Math'', PyInt 3, PyInt 100,
              PyFloat 50, PyStr ''Beginner'', PyStr ''Beginner'']]\<rparr>"

text \<open>The merge of the first two sheets (\<open>demo_load\<close> below).\<close>

definition demo_merged :: frame where
  "demo_merged = \<lparr>columns = [''State'', ''Centre Name'', ''Donor'', ''Subject'', ''Grade'',
        ''Total Marks'', ''Obtained Marks'', ''Category'', ''Academic Year''],
     rows = [[PyStr ''Goa'', PyStr ''C1'', PyStr ''nan'', PyStr ''Math'', PyStr ''3'', PyInt 100,
              PyFloat 50, PyStr ''Beginner'', PyStr ''AY 24-25''],
             [PyStr ''Goa'', PyStr ''C1'', PyStr ''D1'', PyStr ''Eng'', PyStr ''3'', PyInt 100,
              PyFloat 60, PyStr ''Advanced'', PyStr ''AY 24-25''],
             [PyStr ''Goa'', PyStr ''C2'', PyStr ''D1'', PyStr ''Math'', PyStr ''3'', PyInt 100,
              PyFloat 70, PyStr ''Beginner'', PyStr ''AY 25-26'']]\<rparr>"

text \<open>A selection that narrows the centre, the subject and the grade.\<close>

definition demo_criteria :: criteria where
  "demo_criteria = \<lparr>selected_states = [''All''], selected_centres = [''C1'', ''C2''],
     selected_donors = [''All''], selected_subjects = [''Math''],
     selected_grades = [''3'']\<rparr>"

text \<open>
  A first-year sheet whose only row has a blank mark, its merge with the second-year
  sheet, and a selection of a subject that no row has.
\<close>

definition demo_sheet_blank :: frame where
  "demo_sheet_blank = \<lparr>columns = [''State'', ''Centre Name'', ''Donor'', ''Subject'', ''Grade'',
        ''Total Marks'', ''Obtained Marks'', ''Rubrics''],
     rows = [[PyStr ''Goa'', PyStr ''C1'', PyStr ''D1'', PyStr ''Math'', PyInt 3, PyInt 100,
              NaN, PyStr ''Beginner'']]\<rparr>"

definition demo_merged_blank :: frame where
  "demo_merged_blank = \<lparr>columns = [''State'', ''Centre Name'', ''Donor'', ''Subject'', ''Grade'',
        ''Total Marks'', ''Obtained Marks'', ''Category'', ''Academic Year''],
     rows = [[PyStr ''Goa'', PyStr ''C1'', PyStr ''D1'', PyStr ''Math'', PyStr ''3'', PyInt 100,
              NaN, PyStr ''Beginner'', PyStr ''AY 24-25''],
             [PyStr ''Goa'', PyStr ''C2'', PyStr ''D1'', PyStr ''Math'', PyStr ''3'', PyInt 100,
              PyFloat 70, PyStr ''Beginner'', PyStr ''AY 25-26'']]\<rparr>"

definition demo_criteria_absent :: criteria where
  "demo_criteria_absent = all_criteria\<lparr>selected_subjects := [''Physics'']\<rparr>"

section \<open>Grade normalisation\<close>

lemma astype_str_text: "astype_str float_str (PyStr s) = s"
  by (simp add: astype_str_def)

lemma normalize_grade_text: "normalize_grade float_str (PyStr s) = PyStr (re_sub_dot0 s)"
  by (simp add: normalize_grade_def astype_str_def)

lemma suffix_last: "suffix xs ys \<Longrightarrow> xs \<noteq> [] \<Longrightarrow> last ys = last xs"
  by (auto simp: suffix_def)

lemma suffix_same_tail: "suffix (p @ q) (t @ q) = suffix p t"
  by simp

lemma re_sub_dot0_dot0: "re_sub_dot0 (t @ ''.0'') = t"
  by (simp add: re_sub_dot0_def suffix_def)

lemma re_sub_dot0_dot0_nl: "re_sub_dot0 (t @ ''.0\<newline>'') = t @ ''\<newline>''"
proof -
  have "\<not> suffix ''.0'' (t @ ''.0\<newline>'')"
    using suffix_last [of "''.0''" "t @ ''.0\<newline>''"] by auto
  moreover have "suffix ''.0\<newline>'' (t @ ''.0\<newline>'')"
    by (simp add: suffix_def)
  ultimately show ?thesis by (simp add: re_sub_dot0_def)
qed

text \<open>The pattern matches nowhere exactly when the replacement changes nothing.\<close>

lemma re_sub_dot0_fixed_iff:
  "re_sub_dot0 s = s \<longleftrightarrow> \<not> (suffix ''.0'' s \<or> suffix ''.0\<newline>'' s)"
proof (cases "suffix ''.0'' s")
  case True
  then obtain t where "s = t @ ''.0''" by (auto simp: suffix_def)
  then show ?thesis using True by (simp add: re_sub_dot0_dot0)
next
  case False
  note no_dot0 = this
  show ?thesis
  proof (cases "suffix ''.0\<newline>'' s")
    case True
    then obtain t where "s = t @ ''.0\<newline>''" by (auto simp: suffix_def)
    then show ?thesis using True by (simp add: re_sub_dot0_dot0_nl)
  next
    case False
    with no_dot0 show ?thesis by (simp add: re_sub_dot0_def)
  qed
qed

text \<open>
  C7 (as stated, refuted). The claim says that normalising an already normalised grade
  changes nothing, for every string. On a text cell \<^verbatim>\<open>astype(str)\<close> is the identity
  (\<open>normalize_grade_text\<close>), so the normalisation of a string is \<open>re_sub_dot0\<close>, which
  removes one trailing \<^verbatim>\<open>.0\<close> only: \<^verbatim>\<open>3.0.0\<close> becomes \<^verbatim>\<open>3.0\<close>, and normalising that
  again gives \<^verbatim>\<open>3\<close>.
\<close>

theorem grade_normalization_not_idempotent:
  "re_sub_dot0 ''3.0.0'' = ''3.0'' \<and> re_sub_dot0 (re_sub_dot0 ''3.0.0'') = ''3''
   \<and> re_sub_dot0 (re_sub_dot0 ''3.0.0'') \<noteq> re_sub_dot0 ''3.0.0''"
  by (simp add: suffix_to_prefix re_sub_dot0_def)

text \<open>
  C7 (amended). Grade normalisation removes exactly one trailing \<^verbatim>\<open>.0\<close> (also one that
  stands before a final newline). Normalising a normalised string changes nothing exactly
  when the original string does not end in \<^verbatim>\<open>.0.0\<close>, in \<^verbatim>\<open>.0.0\<close> followed by a newline,
  or in \<^verbatim>\<open>.0\<close>, newline, \<^verbatim>\<open>.0\<close>; so it is idempotent on every other string, such as
  \<^verbatim>\<open>3\<close> and \<^verbatim>\<open>3.0\<close>.
\<close>

theorem grade_normalization_idempotent_iff:
  "re_sub_dot0 (re_sub_dot0 s) = re_sub_dot0 s \<longleftrightarrow>
     \<not> (suffix ''.0.0'' s \<or> suffix ''.0.0\<newline>'' s \<or> suffix ''.0\<newline>.0'' s)"
proof (cases "suffix ''.0'' s")
  case True
  then obtain t where s: "s = t @ ''.0''" by (auto simp: suffix_def)
  have a: "suffix ''.0.0'' s \<longleftrightarrow> suffix ''.0'' t"
    unfolding s using suffix_same_tail [of "''.0''" "''.0''" t] by simp
  have b: "\<not> suffix ''.0.0\<newline>'' s"
    unfolding s using suffix_last [of "''.0.0\<newline>''" "t @ ''.0''"] by auto
  have c: "suffix ''.0\<newline>.0'' s \<longleftrightarrow> suffix ''.0\<newline>'' t"
    unfolding s using suffix_same_tail [of "''.0\<newline>''" "''.0''" t] by simp
  have "re_sub_dot0 s = t" by (simp add: s re_sub_dot0_dot0)
  then show ?thesis
    using a b c re_sub_dot0_fixed_iff [of t] by simp
next
  case False
  note no_dot0 = this
  have a: "\<not> suffix ''.0.0'' s"
    using no_dot0 suffix_appendD [of "''.0''" "''.0''" s] by auto
  have c: "\<not> suffix ''.0\<newline>.0'' s"
    using no_dot0 suffix_appendD [of "''.0\<newline>''" "''.0''" s] by auto
  show ?thesis
  proof (cases "suffix ''.0\<newline>'' s")
    case True
    then obtain t where s: "s = t @ ''.0\<newline>''" by (auto simp: suffix_def)
    have b: "suffix ''.0.0\<newline>'' s \<longleftrightarrow> suffix ''.0'' t"
      unfolding s using suffix_same_tail [of "''.0''" "''.0\<newline>''" t] by simp
    have d: "\<not> suffix ''.0'' (t @ ''\<newline>'')"
      using suffix_last [of "''.0''" "t @ ''\<newline>''"] by auto
    have e: "suffix ''.0\<newline>'' (t @ ''\<newline>'') \<longleftrightarrow> suffix ''.0'' t"
      using suffix_same_tail [of "''.0''" "''\<newline>''" t] by simp
    have "re_sub_dot0 s = t @ ''\<newline>''" by (simp add: s re_sub_dot0_dot0_nl)
    then show ?thesis
      using a b c d e re_sub_dot0_fixed_iff [of "t @ ''\<newline>''"] by simp
  next
    case False
    have b: "\<not> suffix ''.0.0\<newline>'' s"
      using False suffix_appendD [of "''.0''" "''.0\<newline>''" s] by auto
    have "re_sub_dot0 s = s" using no_dot0 False by (simp add: re_sub_dot0_def)
    then show ?thesis using a b c by simp
  qed
qed

theorem grade_normalization_idempotent_witness:
  "re_sub_dot0 ''3.0'' = ''3'' \<and> re_sub_dot0 (re_sub_dot0 ''3.0'') = re_sub_dot0 ''3.0''
   \<and> re_sub_dot0 (re_sub_dot0 ''3'') = re_sub_dot0 ''3''
   \<and> re_sub_dot0 (re_sub_dot0 ''3A'') = ''3A''"
  using grade_normalization_idempotent_iff [of "''3.0''"]
    grade_normalization_idempotent_iff [of "''3''"]
    grade_normalization_idempotent_iff [of "''3A''"]
  by (simp add: suffix_to_prefix re_sub_dot0_def)

section \<open>Cells under a label\<close>

lemma cells_of_Nil [simp]: "cells_of [] r c = []" "cells_of cols [] c = []"
  by (simp_all add: cells_of_def)

lemma cells_of_Cons [simp]:
  "cells_of (n # cols) (x # r) c = (if n = c then x # cells_of cols r c else cells_of cols r c)"
  by (simp add: cells_of_def)

lemma cells_of_map_zip:
  "cells_of cols (map (\<lambda>p. if fst p = c then f (snd p) else snd p) (zip cols r)) c' =
     (if c' = c then map f (cells_of cols r c) else cells_of cols r c')"
proof (induction cols arbitrary: r)
  case Nil
  then show ?case by simp
next
  case (Cons n cols)
  then show ?case by (cases r) auto
qed

lemma cells_of_const_zip:
  "cells_of cols (map (\<lambda>p. if fst p = c then v else snd p) (zip cols r)) c' =
     (if c' = c then map (\<lambda>_. v) (cells_of cols r c) else cells_of cols r c')"
  using cells_of_map_zip [of cols c "\<lambda>_. v" r c'] by simp


lemma cells_of_append:
  "length cols = length r \<Longrightarrow>
   cells_of (cols @ cols') (r @ r') c = cells_of cols r c @ cells_of cols' r' c"
  by (simp add: cells_of_def)

lemma cells_of_absent: "c \<notin> set cols \<Longrightarrow> cells_of cols r c = []"
proof (induction cols arbitrary: r)
  case Nil
  then show ?case by simp
next
  case (Cons n cols)
  then show ?case by (cases r) auto
qed

lemma cells_of_present:
  "c \<in> set cols \<Longrightarrow> length r = length cols \<Longrightarrow> cells_of cols r c \<noteq> []"
proof (induction cols arbitrary: r)
  case Nil
  then show ?case by simp
next
  case (Cons n cols)
  then show ?case by (cases r) auto
qed

lemma length_cells_of:
  "length r = length cols \<Longrightarrow> length (cells_of cols r c) = length (filter (\<lambda>n. n = c) cols)"
proof (induction cols arbitrary: r)
  case Nil
  then show ?case by simp
next
  case (Cons n cols)
  then show ?case by (cases r) auto
qed

lemma cells_of_projection:
  assumes "length r = length cols" and "distinct cs" and "c \<in> set cs"
  shows "cells_of (concat (map (\<lambda>c. filter (\<lambda>n. n = c) cols) cs))
           (concat (map (cells_of cols r) cs)) c = cells_of cols r c"
  using assms(2,3)
proof (induction cs)
  case Nil
  then show ?case by simp
next
  case (Cons a cs)
  have len: "length (filter (\<lambda>n. n = a) cols) = length (cells_of cols r a)"
    using assms(1) by (simp add: length_cells_of)
  have same: "cells_of (filter (\<lambda>n. n = a) cols) (cells_of cols r a) a = cells_of cols r a"
    using assms(1)
  proof (induction cols arbitrary: r)
    case Nil
    then show ?case by simp
  next
    case (Cons n cols)
    then show ?case by (cases r) auto
  qed
  have other: "\<And>d. d \<noteq> a \<Longrightarrow> cells_of (filter (\<lambda>n. n = a) cols) (cells_of cols r a) d = []"
    by (rule cells_of_absent) auto
  have rest_absent: "a \<notin> set cs \<Longrightarrow>
      cells_of (concat (map (\<lambda>c. filter (\<lambda>n. n = c) cols) cs)) (concat (map (cells_of cols r) cs)) a = []"
    by (rule cells_of_absent) auto
  show ?case
  proof (cases "c = a")
    case True
    with Cons.prems have "a \<notin> set cs" by simp
    then show ?thesis using True len same rest_absent by (simp add: cells_of_append)
  next
    case False
    with Cons.prems have "c \<in> set cs" "distinct cs" by auto
    then show ?thesis using False len other Cons.IH by (simp add: cells_of_append)
  qed
qed

section \<open>The steps of the merge, column by column\<close>

lemma cell_of_first: "cell_of cols r c = first_cell (cells_of cols r c)"
  by (simp add: cell_of_def first_cell_def)

lemma rectangular_iff: "rectangular df \<longleftrightarrow> (\<forall>r \<in> set (rows df). length r = length (columns df))"
  by (simp add: rectangular_def list_all_iff)

lemma rectangular_standardize: "rectangular s \<Longrightarrow> rectangular (standardize s)"
  by (simp add: rectangular_iff standardize_def rename_def)

lemma rectangular_setitem: "rectangular df \<Longrightarrow> rectangular (setitem_scalar c v df)"
  by (auto simp: rectangular_iff setitem_scalar_def)

lemma rectangular_tagged: "rectangular s \<Longrightarrow> rectangular (tagged y s)"
  by (simp add: tagged_def rectangular_standardize rectangular_setitem)

lemma length_rows_tagged: "length (rows (tagged y s)) = length (rows s)"
  by (simp add: tagged_def setitem_scalar_def standardize_def rename_def)



lemma col_cells_setitem_same:
  assumes "rectangular df"
  shows "map first_cell (col_cells c (setitem_scalar c v df)) = replicate (length (rows df)) v"
proof (cases "c \<in> set (columns df)")
  case True
  have "\<And>r. r \<in> set (rows df) \<Longrightarrow>
      first_cell (map (\<lambda>_. v) (cells_of (columns df) r c)) = v"
  proof -
    fix r assume "r \<in> set (rows df)"
    then have "cells_of (columns df) r c \<noteq> []"
      using assms True by (simp add: rectangular_iff cells_of_present)
    then show "first_cell (map (\<lambda>_. v) (cells_of (columns df) r c)) = v"
      by (cases "cells_of (columns df) r c") (simp_all add: first_cell_def)
  qed
  then have "map first_cell (col_cells c (setitem_scalar c v df)) = map (\<lambda>_. v) (rows df)"
    using True by (simp add: col_cells_def setitem_scalar_def cells_of_const_zip o_def)
  then show ?thesis by (simp add: map_replicate_const)
next
  case False
  have "\<And>r. r \<in> set (rows df) \<Longrightarrow> cells_of (columns df @ [c]) (r @ [v]) c = [v]"
    using assms False by (simp add: rectangular_iff cells_of_append cells_of_absent)
  then have "map first_cell (col_cells c (setitem_scalar c v df)) = map (\<lambda>_. v) (rows df)"
    using False by (simp add: col_cells_def setitem_scalar_def o_def first_cell_def)
  then show ?thesis by (simp add: map_replicate_const)
qed

lemma getitem_cols_Inr:
  "getitem_cols cs df = Inr a \<Longrightarrow>
     set cs \<subseteq> set (columns df) \<and>
     columns a = concat (map (\<lambda>c. filter (\<lambda>n. n = c) (columns df)) cs) \<and>
     rows a = map (\<lambda>r. concat (map (cells_of (columns df) r) cs)) (rows df)"
  by (auto simp: getitem_cols_def split: if_splits)

lemma col_cells_getitem_cols:
  assumes "getitem_cols cs df = Inr a" and "rectangular df" and "distinct cs" and "c \<in> set cs"
  shows "col_cells c a = col_cells c df"
proof -
  have "\<And>r. r \<in> set (rows df) \<Longrightarrow>
      cells_of (concat (map (\<lambda>c. filter (\<lambda>n. n = c) (columns df)) cs))
        (concat (map (cells_of (columns df) r) cs)) c = cells_of (columns df) r c"
    using assms(2-4) by (simp add: rectangular_iff cells_of_projection)
  then show ?thesis
    using getitem_cols_Inr [OF assms(1)] by (simp add: col_cells_def o_def)
qed

lemma map_column_Inr:
  "map_column c f df = Inr d \<Longrightarrow>
     c \<in> set (columns df) \<and> columns d = columns df \<and> length (rows d) = length (rows df)"
  by (auto simp: map_column_def split: if_splits)

lemma col_cells_map_column:
  assumes "map_column c f df = Inr d"
  shows "col_cells c' d = (if c' = c then map (map f) (col_cells c' df) else col_cells c' df)"
  using assms
  by (auto simp: map_column_def col_cells_def cells_of_map_zip o_def split: if_splits)

lemma clean_columns_Inr:
  "clean_columns fs cs df = Inr d \<Longrightarrow>
     set cs \<subseteq> set (columns df) \<and> columns d = columns df \<and> length (rows d) = length (rows df)"
proof (induction cs arbitrary: df)
  case Nil
  then show ?case by simp
next
  case (Cons c cs)
  from Cons.prems obtain d1 where d1: "map_column c (clean_text fs) df = Inr d1"
    and rest: "clean_columns fs cs d1 = Inr d"
    by (auto split: sum.splits)
  from Cons.IH [OF rest] map_column_Inr [OF d1] show ?case by simp
qed

lemma col_cells_clean_columns:
  assumes "clean_columns fs cs df = Inr d" and "distinct cs"
  shows "col_cells c d = (if c \<in> set cs then map (map (clean_text fs)) (col_cells c df)
                          else col_cells c df)"
  using assms
proof (induction cs arbitrary: df)
  case Nil
  then show ?case by simp
next
  case (Cons a cs)
  from Cons.prems obtain d1 where d1: "map_column a (clean_text fs) df = Inr d1"
    and rest: "clean_columns fs cs d1 = Inr d"
    by (auto split: sum.splits)
  from Cons.prems have dist: "distinct cs" and notin: "a \<notin> set cs" by simp_all
  show ?case
    using Cons.IH [OF rest dist] col_cells_map_column [OF d1, of c] notin by auto
qed

lemma clean_columns_succeeds:
  "set cs \<subseteq> set (columns df) \<Longrightarrow> \<exists>d. clean_columns fs cs df = Inr d"
proof (induction cs arbitrary: df)
  case Nil
  then show ?case by simp
next
  case (Cons c cs)
  then have "c \<in> set (columns df)" by simp
  then obtain d1 where d1: "map_column c (clean_text fs) df = Inr d1"
    by (simp add: map_column_def)
  with Cons.prems have "set cs \<subseteq> set (columns d1)"
    using map_column_Inr [OF d1] by simp
  from Cons.IH [OF this] d1 show ?case by simp
qed

section \<open>The merge as a whole\<close>

lemma filter_eq_replicate: "filter (\<lambda>n. n = c) xs = replicate (length (filter (\<lambda>n. n = c) xs)) c"
  by (induction xs) auto

lemma distinct_replicate_le: "distinct (replicate k a) \<Longrightarrow> k \<le> Suc 0"
  by (cases k) auto

lemma projection_distinct:
  assumes "set cs \<subseteq> set cols"
    and "distinct (concat (map (\<lambda>c. filter (\<lambda>n. n = c) cols) cs))"
  shows "concat (map (\<lambda>c. filter (\<lambda>n. n = c) cols) cs) = cs"
  using assms
proof (induction cs)
  case Nil
  then show ?case by simp
next
  case (Cons a cs)
  let ?k = "length (filter (\<lambda>n. n = a) cols)"
  have rep: "filter (\<lambda>n. n = a) cols = replicate ?k a" by (rule filter_eq_replicate)
  from Cons.prems(2) have "distinct (filter (\<lambda>n. n = a) cols)" by simp
  then have "distinct (replicate ?k a)" using rep by simp
  then have "?k \<le> 1" using distinct_replicate_le [of ?k a] by simp
  moreover from Cons.prems(1) have "filter (\<lambda>n. n = a) cols \<noteq> []"
    by (simp add: filter_empty_conv)
  ultimately have "?k = 1" by (cases "filter (\<lambda>n. n = a) cols") auto
  then have one: "filter (\<lambda>n. n = a) cols = [a]" using rep by simp
  from Cons.prems have "concat (map (\<lambda>c. filter (\<lambda>n. n = c) cols) cs) = cs"
    by (intro Cons.IH) auto
  then show ?case using one by simp
qed

lemma concat_projections:
  assumes "getitem_cols cs df1 = Inr a" and "getitem_cols cs df2 = Inr b"
  shows "concat_frames a b =
     (if columns a = columns b then Inr \<lparr>columns = columns a, rows = rows a @ rows b\<rparr>
      else Inl InvalidIndexError)"
proof -
  have "columns a = cs" if "distinct (columns a)"
    using getitem_cols_Inr [OF assms(1)] that projection_distinct [of cs "columns df1"] by simp
  moreover have "columns b = cs" if "distinct (columns b)"
    using getitem_cols_Inr [OF assms(2)] that projection_distinct [of cs "columns df2"] by simp
  ultimately show ?thesis by (auto simp: concat_frames_def)
qed

lemma load_and_prep_data_Inr:
  assumes "load_and_prep_data fs s1 s2 = Inr df"
  obtains a b d where
    "getitem_cols common_cols (tagged ''AY 24-25'' s1) = Inr a"
    "getitem_cols common_cols (tagged ''AY 25-26'' s2) = Inr b"
    "columns a = columns b"
    "clean_columns fs text_cols \<lparr>columns = columns a, rows = rows a @ rows b\<rparr> = Inr d"
    "map_column ''Grade'' (normalize_grade fs) d = Inr df"
proof -
  from assms obtain a where a: "getitem_cols common_cols (tagged ''AY 24-25'' s1) = Inr a"
    by (auto simp: load_and_prep_data_def tagged_def Let_def split: sum.splits)
  from assms a obtain b where b: "getitem_cols common_cols (tagged ''AY 25-26'' s2) = Inr b"
    by (auto simp: load_and_prep_data_def tagged_def Let_def split: sum.splits)
  from assms a b obtain c where c: "concat_frames a b = Inr c"
    by (auto simp: load_and_prep_data_def tagged_def Let_def split: sum.splits)
  from c have eq: "columns a = columns b"
    and c_eq: "c = \<lparr>columns = columns a, rows = rows a @ rows b\<rparr>"
    using concat_projections [OF a b] by (auto split: if_splits)
  from assms a b c obtain d where d: "clean_columns fs text_cols c = Inr d"
    and g: "map_column ''Grade'' (normalize_grade fs) d = Inr df"
    by (auto simp: load_and_prep_data_def tagged_def Let_def split: sum.splits)
  show ?thesis using that a b eq d g c_eq by simp
qed

lemma load_and_prep_data_steps:
  assumes "getitem_cols common_cols (tagged ''AY 24-25'' s1) = Inr a"
    "getitem_cols common_cols (tagged ''AY 25-26'' s2) = Inr b"
    "columns a = columns b"
    "clean_columns fs text_cols \<lparr>columns = columns a, rows = rows a @ rows b\<rparr> = Inr d"
  shows "load_and_prep_data fs s1 s2 = map_column ''Grade'' (normalize_grade fs) d"
  using assms concat_projections [OF assms(1,2)]
  by (simp add: load_and_prep_data_def tagged_def Let_def)

lemma load_and_prep_data_row_count:
  assumes "load_and_prep_data fs s1 s2 = Inr df"
  shows "length (rows df) = length (rows s1) + length (rows s2)"
proof -
  from assms obtain a b d where
    a: "getitem_cols common_cols (tagged ''AY 24-25'' s1) = Inr a" and
    b: "getitem_cols common_cols (tagged ''AY 25-26'' s2) = Inr b" and
    eq: "columns a = columns b" and
    d: "clean_columns fs text_cols \<lparr>columns = columns a, rows = rows a @ rows b\<rparr> = Inr d" and
    g: "map_column ''Grade'' (normalize_grade fs) d = Inr df"
    by (rule load_and_prep_data_Inr)
  have "length (rows a) = length (rows s1)" "length (rows b) = length (rows s2)"
    using getitem_cols_Inr [OF a] getitem_cols_Inr [OF b] by (simp_all add: length_rows_tagged)
  then show ?thesis
    using clean_columns_Inr [OF d] map_column_Inr [OF g] by simp
qed

lemma load_and_prep_data_columns:
  assumes "load_and_prep_data fs s1 s2 = Inr df"
  shows "set common_cols \<subseteq> set (columns df)"
proof -
  from assms obtain a b d where
    a: "getitem_cols common_cols (tagged ''AY 24-25'' s1) = Inr a" and
    b: "getitem_cols common_cols (tagged ''AY 25-26'' s2) = Inr b" and
    eq: "columns a = columns b" and
    d: "clean_columns fs text_cols \<lparr>columns = columns a, rows = rows a @ rows b\<rparr> = Inr d" and
    g: "map_column ''Grade'' (normalize_grade fs) d = Inr df"
    by (rule load_and_prep_data_Inr)
  have "set (columns a) = set common_cols"
    using getitem_cols_Inr [OF a] by auto
  then show ?thesis
    using clean_columns_Inr [OF d] map_column_Inr [OF g] by simp
qed

section \<open>When the two projections have the same columns\<close>

lemma occurrences_distinct:
  "distinct xs \<Longrightarrow> occurrences c xs = (if c \<in> set xs then 1 else 0)"
  by (induction xs) (auto simp: occurrences_def)

lemma occurrences_two_distinct:
  "distinct xs \<Longrightarrow> a \<noteq> b \<Longrightarrow>
   length (filter (\<lambda>n. n = a \<or> n = b) xs) = (if a \<in> set xs then 1 else 0) + (if b \<in> set xs then 1 else 0)"
  by (induction xs) auto

lemma occurrences_rename_other:
  "c \<noteq> old \<Longrightarrow> c \<noteq> new \<Longrightarrow>
   occurrences c (map (\<lambda>n. if n = old then new else n) xs) = occurrences c xs"
  by (induction xs) (auto simp: occurrences_def)

lemma occurrences_rename_new:
  "old \<noteq> new \<Longrightarrow>
   occurrences new (map (\<lambda>n. if n = old then new else n) xs) =
     length (filter (\<lambda>n. n = old \<or> n = new) xs)"
  by (induction xs) (auto simp: occurrences_def)

lemma occurrences_standardize:
  assumes "distinct (columns s)" and "c \<noteq> ''Rubrics''"
  shows "occurrences c (columns (standardize s)) =
     (if c = ''Category'' then (if ''Rubrics'' \<in> set (columns s) then 1 else 0)
                              + (if ''Category'' \<in> set (columns s) then 1 else 0)
      else if c \<in> set (columns s) then 1 else 0)"
proof (cases "''Rubrics'' \<in> set (columns s)")
  case True
  show ?thesis
  proof (cases "c = ''Category''")
    case True
    then show ?thesis
      using assms(1) \<open>''Rubrics'' \<in> set (columns s)\<close>
        occurrences_rename_new [of "''Rubrics''" "''Category''" "columns s"]
        occurrences_two_distinct [of "columns s" "''Rubrics''" "''Category''"]
      by (simp add: standardize_def rename_def)
  next
    case False
    then show ?thesis
      using assms \<open>''Rubrics'' \<in> set (columns s)\<close>
        occurrences_rename_other [of c "''Rubrics''" "''Category''" "columns s"]
      by (simp add: standardize_def rename_def occurrences_distinct)
  qed
next
  case False
  then show ?thesis using assms(1) by (simp add: standardize_def occurrences_distinct)
qed

lemma occurrences_pos_iff: "0 < occurrences c xs \<longleftrightarrow> c \<in> set xs"
  by (induction xs) (auto simp: occurrences_def)

lemma columns_tagged:
  "columns (tagged y s) =
     (if ''Academic Year'' \<in> set (columns (standardize s)) then columns (standardize s)
      else columns (standardize s) @ [''Academic Year''])"
  by (simp add: tagged_def setitem_scalar_def)

lemma valid_source_tagged:
  "valid_source s \<Longrightarrow> set common_cols \<subseteq> set (columns (tagged y s))"
  by (auto simp: valid_source_def columns_tagged required_cols_def common_cols_def)

lemma occurrences_tagged:
  assumes "distinct (columns s)" and "valid_source s" and "c \<in> set common_cols"
  shows "occurrences c (columns (tagged y s)) =
           (if c = ''Category'' \<and> has_both s then 2 else 1)"
proof (cases "c = ''Academic Year''")
  case True
  have "occurrences ''Academic Year'' (columns (tagged y s)) = 1"
    using assms(1) occurrences_standardize [of s "''Academic Year''"]
      occurrences_pos_iff [of "''Academic Year''" "columns (standardize s)"]
    by (auto simp: columns_tagged occurrences_def split: if_splits)
  then show ?thesis using True by simp
next
  case False
  with assms(3) have req: "c \<in> set required_cols"
    by (auto simp: common_cols_def required_cols_def)
  then have neq: "c \<noteq> ''Rubrics''" by (auto simp: required_cols_def)
  have pos: "0 < occurrences c (columns (standardize s))"
    using req assms(2) by (auto simp: valid_source_def occurrences_pos_iff)
  have "occurrences c (columns (tagged y s)) = occurrences c (columns (standardize s))"
    using False by (simp add: columns_tagged occurrences_def)
  then show ?thesis
    using pos occurrences_standardize [OF assms(1) neq]
    by (auto simp: has_both_def split: if_splits)
qed

lemma projected_columns_equal:
  assumes "distinct (columns s1)" "valid_source s1" "distinct (columns s2)" "valid_source s2"
    and "has_both s1 = has_both s2"
  shows "concat (map (\<lambda>c. filter (\<lambda>n. n = c) (columns (tagged y1 s1))) common_cols) =
         concat (map (\<lambda>c. filter (\<lambda>n. n = c) (columns (tagged y2 s2))) common_cols)"
proof -
  have key: "filter (\<lambda>n. n = c) (columns (tagged y1 s1)) = filter (\<lambda>n. n = c) (columns (tagged y2 s2))"
    if "c \<in> set common_cols" for c
  proof -
    have "occurrences c (columns (tagged y1 s1)) = occurrences c (columns (tagged y2 s2))"
      using that assms by (simp add: occurrences_tagged)
    then show ?thesis
      using filter_eq_replicate [of c "columns (tagged y1 s1)"]
        filter_eq_replicate [of c "columns (tagged y2 s2)"]
      by (simp add: occurrences_def)
  qed
  have "map (\<lambda>c. filter (\<lambda>n. n = c) (columns (tagged y1 s1))) common_cols =
        map (\<lambda>c. filter (\<lambda>n. n = c) (columns (tagged y2 s2))) common_cols"
    by (rule map_cong [OF refl]) (rule key)
  then show ?thesis by (simp only:)
qed

lemma getitem_col_cells:
  "c \<in> set (columns df) \<Longrightarrow> getitem c df = Inr (map first_cell (col_cells c df))"
  by (simp add: getitem_def col_cells_def cell_of_first o_def)

lemma col_cells_append_rows:
  "columns b = columns a \<Longrightarrow>
   col_cells c \<lparr>columns = columns a, rows = rows a @ rows b\<rparr> = col_cells c a @ col_cells c b"
  by (simp add: col_cells_def)

lemma col_cells_merged:
  assumes "rectangular s1" and "rectangular s2"
    and "load_and_prep_data fs s1 s2 = Inr df" and "c \<in> set common_cols"
  shows "col_cells c df = map (map (normalizer fs c))
           (col_cells c (tagged ''AY 24-25'' s1) @ col_cells c (tagged ''AY 25-26'' s2))"
proof -
  from assms(3) obtain a b d where
    a: "getitem_cols common_cols (tagged ''AY 24-25'' s1) = Inr a" and
    b: "getitem_cols common_cols (tagged ''AY 25-26'' s2) = Inr b" and
    eq: "columns a = columns b" and
    d: "clean_columns fs text_cols \<lparr>columns = columns a, rows = rows a @ rows b\<rparr> = Inr d" and
    g: "map_column ''Grade'' (normalize_grade fs) d = Inr df"
    by (rule load_and_prep_data_Inr)
  have dc: "distinct common_cols" by (simp add: common_cols_def)
  have dt: "distinct text_cols" by (simp add: text_cols_def)
  have ng: "''Grade'' \<notin> set text_cols" by (simp add: text_cols_def)
  have pa: "col_cells c a = col_cells c (tagged ''AY 24-25'' s1)"
    using col_cells_getitem_cols [OF a rectangular_tagged [OF assms(1)] dc assms(4)] .
  have pb: "col_cells c b = col_cells c (tagged ''AY 25-26'' s2)"
    using col_cells_getitem_cols [OF b rectangular_tagged [OF assms(2)] dc assms(4)] .
  have comb: "col_cells c \<lparr>columns = columns a, rows = rows a @ rows b\<rparr> =
              col_cells c (tagged ''AY 24-25'' s1) @ col_cells c (tagged ''AY 25-26'' s2)"
    using col_cells_append_rows [of b a c] eq pa pb by simp
  have cd: "col_cells c d = (if c \<in> set text_cols
        then map (map (clean_text fs)) (col_cells c (tagged ''AY 24-25'' s1) @ col_cells c (tagged ''AY 25-26'' s2))
        else col_cells c (tagged ''AY 24-25'' s1) @ col_cells c (tagged ''AY 25-26'' s2))"
    using col_cells_clean_columns [OF d dt, of c] comb by simp
  have "col_cells c df = (if c = ''Grade'' then map (map (normalize_grade fs)) (col_cells c d)
                          else col_cells c d)"
    using col_cells_map_column [OF g, of c] .
  then show ?thesis using cd ng by (auto simp: normalizer_def)
qed

lemma rows_standardize: "rows (standardize s) = rows s"
  by (simp add: standardize_def rename_def)

lemma first_cells_tagged:
  assumes "rectangular s"
  shows "map first_cell (col_cells ''Academic Year'' (tagged y s)) =
           replicate (length (rows s)) (PyStr y)"
  unfolding tagged_def
  using col_cells_setitem_same [OF rectangular_standardize [OF assms], of "''Academic Year''" "PyStr y"]
  by (simp only: rows_standardize)

section \<open>The example merge\<close>

lemma demo_load: "load_and_prep_data float_str_whole demo_sheet_24 demo_sheet_25 = Inr demo_merged"
  by code_simp

lemma demo_ok: "sheet_ok demo_sheet_24 \<and> sheet_ok demo_sheet_25 \<and> sheet_ok demo_sheet_both
   \<and> valid_source demo_sheet_24 \<and> valid_source demo_sheet_25 \<and> valid_source demo_sheet_both
   \<and> \<not> has_both demo_sheet_24 \<and> \<not> has_both demo_sheet_25 \<and> has_both demo_sheet_both"
  by code_simp

section \<open>Row count and year tags of the merge\<close>

text \<open>
  C1 (as stated, refuted). The claim calls a source valid when it has all required columns
  after the \<^verbatim>\<open>Rubrics\<close> to \<^verbatim>\<open>Category\<close> renaming, and promises an output whose row count
  is the sum of the inputs'. A sheet that has both a \<^verbatim>\<open>Rubrics\<close> and a \<^verbatim>\<open>Category\<close>
  column is valid in that sense; after the renaming it has two \<^verbatim>\<open>Category\<close> columns, its
  projection has ten columns, and \<^verbatim>\<open>pd.concat\<close> with the nine-column projection of an
  ordinary sheet raises: there is no output.
\<close>

theorem merge_fails_on_one_sided_duplicate:
  "sheet_ok demo_sheet_both \<and> sheet_ok demo_sheet_25
   \<and> valid_source demo_sheet_both \<and> valid_source demo_sheet_25
   \<and> load_and_prep_data float_str_whole demo_sheet_both demo_sheet_25 = Inl InvalidIndexError"
  by code_simp

text \<open>
  C1 (amended). For every pair of sheets as \<^verbatim>\<open>read_excel\<close> returns them, both valid (all
  required columns present after the renaming), of which none or both carry a
  \<^verbatim>\<open>Category\<close> column next to \<^verbatim>\<open>Rubrics\<close>, the merge succeeds and its output has as many
  rows as the two sheets together.
\<close>

theorem merge_row_count:
  assumes "sheet_ok s1" and "sheet_ok s2" and "valid_source s1" and "valid_source s2"
    and "has_both s1 = has_both s2"
  shows "\<exists>df. load_and_prep_data fs s1 s2 = Inr df \<and>
               length (rows df) = length (rows s1) + length (rows s2)"
proof -
  obtain a where a: "getitem_cols common_cols (tagged ''AY 24-25'' s1) = Inr a"
    using valid_source_tagged [OF assms(3)] by (simp add: getitem_cols_def)
  obtain b where b: "getitem_cols common_cols (tagged ''AY 25-26'' s2) = Inr b"
    using valid_source_tagged [OF assms(4)] by (simp add: getitem_cols_def)
  have eq: "columns a = columns b"
    using getitem_cols_Inr [OF a] getitem_cols_Inr [OF b] assms
      projected_columns_equal [of s1 s2 "''AY 24-25''" "''AY 25-26''"]
    by (simp add: sheet_ok_def)
  have cols_a: "set (columns a) = set common_cols"
    using getitem_cols_Inr [OF a] by auto
  then have "set text_cols \<subseteq> set (columns \<lparr>columns = columns a, rows = rows a @ rows b\<rparr>)"
    by (auto simp: text_cols_def common_cols_def)
  then obtain d where
    d: "clean_columns fs text_cols \<lparr>columns = columns a, rows = rows a @ rows b\<rparr> = Inr d"
    using clean_columns_succeeds by blast
  have "''Grade'' \<in> set (columns d)"
    using clean_columns_Inr [OF d] cols_a by (simp add: common_cols_def)
  then obtain df where g: "map_column ''Grade'' (normalize_grade fs) d = Inr df"
    by (simp add: map_column_def)
  have "load_and_prep_data fs s1 s2 = Inr df"
    using load_and_prep_data_steps [OF a b eq d] g by simp
  then show ?thesis using load_and_prep_data_row_count by blast
qed

theorem merge_row_count_witness:
  "sheet_ok demo_sheet_24 \<and> sheet_ok demo_sheet_25 \<and> valid_source demo_sheet_24
   \<and> valid_source demo_sheet_25 \<and> has_both demo_sheet_24 = has_both demo_sheet_25
   \<and> load_and_prep_data float_str_whole demo_sheet_24 demo_sheet_25 = Inr demo_merged
   \<and> length (rows demo_merged) = length (rows demo_sheet_24) + length (rows demo_sheet_25)"
proof -
  have h: "sheet_ok demo_sheet_24" "sheet_ok demo_sheet_25" "valid_source demo_sheet_24"
    "valid_source demo_sheet_25" "has_both demo_sheet_24 = has_both demo_sheet_25"
    using demo_ok by simp_all
  from merge_row_count [OF h, of float_str_whole] show ?thesis
    using h demo_load by auto
qed

text \<open>
  C2. In the output of a merge, the \<^verbatim>\<open>Academic Year\<close> column reads \<^verbatim>\<open>AY 24-25\<close> on the
  rows that came from the first sheet (the first rows, as many as that sheet has) and
  \<^verbatim>\<open>AY 25-26\<close> on the rows that came from the second sheet; so every row carries one of
  the two tags, the one of its origin.
\<close>

theorem merge_academic_year:
  assumes "sheet_ok s1" and "sheet_ok s2" and "load_and_prep_data fs s1 s2 = Inr df"
  shows "getitem ''Academic Year'' df =
           Inr (replicate (length (rows s1)) (PyStr ''AY 24-25'')
              @ replicate (length (rows s2)) (PyStr ''AY 25-26''))"
proof -
  have r1: "rectangular s1" and r2: "rectangular s2"
    using assms(1,2) by (simp_all add: sheet_ok_def)
  have ay: "''Academic Year'' \<in> set common_cols" by (simp add: common_cols_def)
  have nz: "normalizer fs ''Academic Year'' = (\<lambda>x. x)"
    by (simp add: normalizer_def text_cols_def)
  have cc: "col_cells ''Academic Year'' df =
      col_cells ''Academic Year'' (tagged ''AY 24-25'' s1)
    @ col_cells ''Academic Year'' (tagged ''AY 25-26'' s2)"
    using col_cells_merged [OF r1 r2 assms(3) ay] by (simp add: nz)
  have "''Academic Year'' \<in> set (columns df)"
    using load_and_prep_data_columns [OF assms(3)] ay by blast
  then have "getitem ''Academic Year'' df = Inr (map first_cell (col_cells ''Academic Year'' df))"
    by (rule getitem_col_cells)
  then show ?thesis
    by (simp add: cc first_cells_tagged [OF r1] first_cells_tagged [OF r2])
qed

theorem merge_academic_year_witness:
  "sheet_ok demo_sheet_24 \<and> sheet_ok demo_sheet_25
   \<and> load_and_prep_data float_str_whole demo_sheet_24 demo_sheet_25 = Inr demo_merged
   \<and> getitem ''Academic Year'' demo_merged =
       Inr [PyStr ''AY 24-25'', PyStr ''AY 24-25'', PyStr ''AY 25-26'']"
proof -
  have h: "sheet_ok demo_sheet_24" "sheet_ok demo_sheet_25" using demo_ok by simp_all
  have "length (rows demo_sheet_24) = 2" "length (rows demo_sheet_25) = 1"
    by (simp_all add: demo_sheet_24_def demo_sheet_25_def)
  with merge_academic_year [OF h demo_load] show ?thesis
    using h demo_load by (simp add: numeral_2_eq_2)
qed

section \<open>The filters\<close>

lemma filter_step_present:
  "c \<in> set (columns df) \<Longrightarrow>
   filter_step c sel df =
     Inr (df\<lparr>rows := filter (\<lambda>r. ''All'' \<in> set sel \<or> isin (cell_of (columns df) r c) sel) (rows df)\<rparr>)"
  by (simp add: filter_step_def filter_isin_def)

lemma apply_filters_eq:
  assumes "set filter_cols \<subseteq> set (columns df)"
  shows "apply_filters df cr = Inr (df\<lparr>rows := filter (passes (columns df) cr) (rows df)\<rparr>)"
proof -
  have c: "''State'' \<in> set (columns df)" "''Centre Name'' \<in> set (columns df)"
    "''Donor'' \<in> set (columns df)" "''Subject'' \<in> set (columns df)" "''Grade'' \<in> set (columns df)"
    using assms by (simp_all add: filter_cols_def)
  have "filter (passes (columns df) cr) (rows df) =
        filter (\<lambda>r. ''All'' \<in> set (selected_grades cr) \<or> isin (cell_of (columns df) r ''Grade'') (selected_grades cr))
       (filter (\<lambda>r. ''All'' \<in> set (selected_subjects cr) \<or> isin (cell_of (columns df) r ''Subject'') (selected_subjects cr))
       (filter (\<lambda>r. ''All'' \<in> set (selected_donors cr) \<or> isin (cell_of (columns df) r ''Donor'') (selected_donors cr))
       (filter (\<lambda>r. ''All'' \<in> set (selected_centres cr) \<or> isin (cell_of (columns df) r ''Centre Name'') (selected_centres cr))
       (filter (\<lambda>r. ''All'' \<in> set (selected_states cr) \<or> isin (cell_of (columns df) r ''State'') (selected_states cr))
          (rows df)))))"
    unfolding filter_filter passes_def by (rule filter_cong) auto
  then show ?thesis
    using c by (simp add: apply_filters_def filter_step_present)
qed

text \<open>
  C3. With every selection at its default \<^verbatim>\<open>["All"]\<close> the filters return the table they
  were given: the same columns and the same rows, in the same order.
\<close>

theorem filter_all_is_identity: "apply_filters df all_criteria = Inr df"
  by (simp add: apply_filters_def all_criteria_def filter_step_def)

theorem filter_all_is_identity_witness:
  "apply_filters demo_merged all_criteria = Inr demo_merged
   \<and> length (rows demo_merged) = 3"
  using filter_all_is_identity [of demo_merged] by (simp add: demo_merged_def)

text \<open>
  C9. A selection that contains \<^verbatim>\<open>All\<close>, alone or next to explicit values, tests nothing
  for its column: the filter step returns its input, and the five filters together behave
  as if that selection were \<^verbatim>\<open>["All"]\<close>. (In the example no row has the state
  \<^verbatim>\<open>Kerala\<close>: the selection \<^verbatim>\<open>["Kerala"]\<close> keeps no row, \<^verbatim>\<open>["Kerala", "All"]\<close> keeps all.)
\<close>

theorem all_sentinel_dominates:
  assumes "''All'' \<in> set sel"
  shows "filter_step c sel df = Inr df
    \<and> apply_filters df (cr\<lparr>selected_states := sel\<rparr>) = apply_filters df (cr\<lparr>selected_states := [''All'']\<rparr>)
    \<and> apply_filters df (cr\<lparr>selected_centres := sel\<rparr>) = apply_filters df (cr\<lparr>selected_centres := [''All'']\<rparr>)
    \<and> apply_filters df (cr\<lparr>selected_donors := sel\<rparr>) = apply_filters df (cr\<lparr>selected_donors := [''All'']\<rparr>)
    \<and> apply_filters df (cr\<lparr>selected_subjects := sel\<rparr>) = apply_filters df (cr\<lparr>selected_subjects := [''All'']\<rparr>)
    \<and> apply_filters df (cr\<lparr>selected_grades := sel\<rparr>) = apply_filters df (cr\<lparr>selected_grades := [''All'']\<rparr>)"
proof -
  have step: "filter_step c' sel d = Inr d" "filter_step c' [''All''] d = Inr d" for c' d
    using assms by (simp_all add: filter_step_def)
  show ?thesis by (simp add: apply_filters_def step cong: sum.case_cong)
qed

theorem all_sentinel_dominates_witness:
  "''All'' \<in> set [''Kerala'', ''All'']
   \<and> filter_step ''State'' [''Kerala'', ''All''] demo_merged = Inr demo_merged
   \<and> filter_step ''State'' [''Kerala''] demo_merged = Inr (demo_merged\<lparr>rows := []\<rparr>)
   \<and> apply_filters demo_merged (all_criteria\<lparr>selected_states := [''Kerala'', ''All'']\<rparr>) = Inr demo_merged"
proof -
  have h: "''All'' \<in> set [''Kerala'', ''All'']" by simp
  have k: "filter_step ''State'' [''Kerala''] demo_merged = Inr (demo_merged\<lparr>rows := []\<rparr>)"
    by code_simp
  have a: "apply_filters demo_merged (all_criteria\<lparr>selected_states := [''All'']\<rparr>) = Inr demo_merged"
    by (simp add: apply_filters_def all_criteria_def filter_step_def)
  from all_sentinel_dominates [OF h, of "''State''" demo_merged all_criteria]
  show ?thesis using h k a by simp
qed

text \<open>
  C8. On every merged table and for every selection the filters succeed, and the filtered
  table has the columns of the merged table and, as rows, the rows of the merged table
  that pass the five tests, unchanged and in their order: a subsequence of the merged rows.
\<close>

theorem filtered_is_subsequence:
  assumes "load_and_prep_data fs s1 s2 = Inr df"
  shows "\<exists>f. apply_filters df cr = Inr f \<and> columns f = columns df
             \<and> rows f = filter (passes (columns df) cr) (rows df)
             \<and> subseq (rows f) (rows df)"
proof -
  have "set filter_cols \<subseteq> set (columns df)"
    using load_and_prep_data_columns [OF assms] by (auto simp: filter_cols_def common_cols_def)
  then have "apply_filters df cr = Inr (df\<lparr>rows := filter (passes (columns df) cr) (rows df)\<rparr>)"
    by (rule apply_filters_eq)
  then show ?thesis by simp
qed

theorem filtered_is_subsequence_witness:
  "load_and_prep_data float_str_whole demo_sheet_24 demo_sheet_25 = Inr demo_merged
   \<and> apply_filters demo_merged demo_criteria =
       Inr (demo_merged\<lparr>rows := [rows demo_merged ! 0, rows demo_merged ! 2]\<rparr>)
   \<and> subseq [rows demo_merged ! 0, rows demo_merged ! 2] (rows demo_merged)"
proof -
  have e: "apply_filters demo_merged demo_criteria =
       Inr (demo_merged\<lparr>rows := [rows demo_merged ! 0, rows demo_merged ! 2]\<rparr>)"
    by code_simp
  from filtered_is_subsequence [OF demo_load, of demo_criteria] show ?thesis
    using demo_load e by auto
qed

section \<open>The filter columns of a merged table\<close>

















section \<open>The quick metrics\<close>

lemma year_mean_eq:
  assumes "''Academic Year'' \<in> set (columns f)" and "''Obtained Marks'' \<in> set (columns f)"
    and "numeric_marks f"
  shows "year_mean y f = Inr (if year_marks y f = [] then None else Some (mean (year_marks y f)))"
proof -
  have "\<not> list_ex is_text (map (\<lambda>r. cell_of (columns f) r ''Obtained Marks'') (year_group y f))"
    using assms(3) by (auto simp: numeric_marks_def column_of_def list_ex_iff year_group_def)
  then show ?thesis
    using assms(1,2)
    by (simp add: year_mean_def year_rows_def getitem_def series_mean_def year_marks_def
        year_group_def mean_def Let_def)
qed

lemma demo_load_blank:
  "load_and_prep_data float_str_whole demo_sheet_blank demo_sheet_25 = Inr demo_merged_blank"
  by code_simp

text \<open>
  C4 (as stated, refuted). The claim gives the delta as the difference of the two means
  whenever both year groups are non-empty. The code passes a delta only when
  \<^verbatim>\<open>pd.notna\<close> holds of both means, and the mean of a group whose marks are all blank is
  \<^verbatim>\<open>NaN\<close>: in the merge below each year has one row, the first-year row has a blank mark,
  and the delta is \<^verbatim>\<open>None\<close>.
\<close>

theorem kpi_delta_blank_marks:
  "load_and_prep_data float_str_whole demo_sheet_blank demo_sheet_25 = Inr demo_merged_blank
   \<and> apply_filters demo_merged_blank all_criteria = Inr demo_merged_blank
   \<and> length (year_group ''AY 24-25'' demo_merged_blank) = 1
   \<and> length (year_group ''AY 25-26'' demo_merged_blank) = 1
   \<and> compute_kpis demo_merged_blank =
       Inr \<lparr>total_students = 2, avg_marks_24 = None, avg_marks_25 = Some 70, delta = None\<rparr>"
  by code_simp

text \<open>
  C4 (amended). On a table whose marks are numbers or blanks, the delta is the mean of the
  non-blank marks of the rows tagged \<^verbatim>\<open>AY 25-26\<close> minus the mean of the non-blank marks of
  the rows tagged \<^verbatim>\<open>AY 24-25\<close> whenever both years have a non-blank mark, and is absent
  (not a number) otherwise; in particular it is absent when a year has no row.
\<close>

theorem kpi_delta:
  assumes "''Academic Year'' \<in> set (columns f)" and "''Obtained Marks'' \<in> set (columns f)"
    and "numeric_marks f"
  shows "\<exists>k. compute_kpis f = Inr k
    \<and> avg_marks_24 k = (if year_marks ''AY 24-25'' f = [] then None
                        else Some (mean (year_marks ''AY 24-25'' f)))
    \<and> avg_marks_25 k = (if year_marks ''AY 25-26'' f = [] then None
                        else Some (mean (year_marks ''AY 25-26'' f)))
    \<and> delta k = (if year_marks ''AY 24-25'' f \<noteq> [] \<and> year_marks ''AY 25-26'' f \<noteq> []
                 then Some (mean (year_marks ''AY 25-26'' f) - mean (year_marks ''AY 24-25'' f))
                 else None)
    \<and> (year_group ''AY 24-25'' f = [] \<or> year_group ''AY 25-26'' f = [] \<longrightarrow> delta k = None)"
proof -
  have e: "year_group y f = [] \<Longrightarrow> year_marks y f = []" for y
    by (simp add: year_marks_def List.map_filter_simps)
  show ?thesis
    using e [of "''AY 24-25''"] e [of "''AY 25-26''"]
    by (auto simp: compute_kpis_def year_mean_eq [OF assms])
qed

theorem kpi_delta_witness:
  "''Academic Year'' \<in> set (columns demo_merged) \<and> ''Obtained Marks'' \<in> set (columns demo_merged)
   \<and> numeric_marks demo_merged
   \<and> year_marks ''AY 24-25'' demo_merged = [50, 60] \<and> year_marks ''AY 25-26'' demo_merged = [70]
   \<and> compute_kpis demo_merged =
       Inr \<lparr>total_students = 3, avg_marks_24 = Some 55, avg_marks_25 = Some 70, delta = Some 15\<rparr>"
proof -
  have h: "''Academic Year'' \<in> set (columns demo_merged)"
    "''Obtained Marks'' \<in> set (columns demo_merged)" "numeric_marks demo_merged"
    by code_simp+
  have m: "year_marks ''AY 24-25'' demo_merged = [50, 60]" "year_marks ''AY 25-26'' demo_merged = [70]"
    by code_simp+
  have k: "compute_kpis demo_merged =
       Inr \<lparr>total_students = 3, avg_marks_24 = Some 55, avg_marks_25 = Some 70, delta = Some 15\<rparr>"
    by code_simp
  from kpi_delta [OF h] k have "delta \<lparr>total_students = 3, avg_marks_24 = Some 55,
      avg_marks_25 = Some 70, delta = Some 15\<rparr> = Some (mean [70] - mean [50, 60])"
    by (auto simp: m)
  then show ?thesis using h m k by simp
qed

section \<open>The category distribution\<close>











section \<open>The empty result\<close>

text \<open>
  C6. When the filters succeed and leave no row, the pass ends with the warning of line 94:
  a regular result (not an error), and no metric and no chart table is computed.
\<close>

theorem empty_result_is_no_data:
  assumes "apply_filters df cr = Inr f" and "rows f = []"
  shows "render df cr = Inr (Warning no_data_message)"
  using assms by (simp add: render_def empty_frame_def)

theorem empty_result_is_no_data_witness:
  "apply_filters demo_merged demo_criteria_absent = Inr (demo_merged\<lparr>rows := []\<rparr>)
   \<and> rows (demo_merged\<lparr>rows := []\<rparr>) = []
   \<and> render demo_merged demo_criteria_absent = Inr (Warning no_data_message)"
proof -
  have a: "apply_filters demo_merged demo_criteria_absent = Inr (demo_merged\<lparr>rows := []\<rparr>)"
    by code_simp
  have b: "rows (demo_merged\<lparr>rows := []\<rparr>) = []" by simp
  from empty_result_is_no_data [OF a b] show ?thesis using a b by simp
qed

end
